theory Spec2Isabelle
  imports Complex_Main "HOL-Library.AList" "HOL-Library.Signed_Division"
begin

section \<open>Conway's Game of Life in the browser: a model of \<^verbatim>\<open>index.js\<close>\<close>

text \<open>
  The script keeps one global object \<^verbatim>\<open>state\<close> and a grid of \<^verbatim>\<open>div\<close> elements of
  class \<^verbatim>\<open>cell\<close>. Every function of the script becomes a function from the state before
  to the state after. What the script reads from outside (the values \<^verbatim>\<open>Math.random()\<close>
  returns, the text of an input field, the identifier \<^verbatim>\<open>setInterval\<close> returns, the
  language's conversion \<^verbatim>\<open>Number\<close>) is an argument of the function that reads it.
\<close>

subsection \<open>Values of the language\<close>

text \<open>
  A number of the language. Finite doubles are read as reals (rounding is not modelled);
  the three values that are not finite are kept apart, since a comparison with \<^verbatim>\<open>NaN\<close>
  is false and \<^verbatim>\<open>NaN\<close> is falsy.
\<close>

datatype number = Finite real | Infinity | NegInfinity | NaN

text \<open>Truthiness of a number, as \<^verbatim>\<open>&&\<close> and \<^verbatim>\<open>if\<close> read it: 0 and NaN are falsy.\<close>

fun truthy :: "number \<Rightarrow> bool" where
  "truthy (Finite x) = (x \<noteq> 0)"
| "truthy Infinity = True"
| "truthy NegInfinity = True"
| "truthy NaN = False"

text \<open>The comparison \<^verbatim>\<open>a < b\<close> on numbers.\<close>

fun js_less :: "number \<Rightarrow> number \<Rightarrow> bool" where
  "js_less NaN b = False"
| "js_less a NaN = False"
| "js_less (Finite x) (Finite y) = (x < y)"
| "js_less (Finite x) Infinity = True"
| "js_less (Finite x) NegInfinity = False"
| "js_less Infinity b = False"
| "js_less NegInfinity NegInfinity = False"
| "js_less NegInfinity b = True"

text \<open>
  The key \<^verbatim>\<open>`${i}_${j}`\<close> of a cell is the pair of the two numbers it is printed from:
  the first component is the number before the underscore, the second the number after
  it. \<^verbatim>\<open>cellId.split('_')\<close> followed by \<^verbatim>\<open>Number\<close> gives the two components back.
\<close>

type_synonym cellId = "int \<times> int"

text \<open>
  An object used as a dictionary: its own properties in insertion order, every key once.
  Reading a property is \<^const>\<open>map_of\<close> (\<open>None\<close> is \<^verbatim>\<open>undefined\<close>); assigning one is
  \<^const>\<open>AList.update\<close>, which overwrites in place or appends a new key at the end.
\<close>

type_synonym cellStates = "(cellId \<times> int) list"

definition hasOwnProperty :: "cellStates \<Rightarrow> cellId \<Rightarrow> bool" where
  "hasOwnProperty obj k = (map_of obj k \<noteq> None)"

subsection \<open>Constants\<close>

definition ROWS :: int where "ROWS = 30"
definition COLS :: int where "COLS = 50"
definition MAX_ALIVE_NEIGHBORS :: int where "MAX_ALIVE_NEIGHBORS = 3"
definition MIN_ALIVE_NEIGHBORS :: int where "MIN_ALIVE_NEIGHBORS = 2"
definition LIGHTBLUE :: string where "LIGHTBLUE = ''rgb(122, 215, 240)''"
definition WHITE :: string where "WHITE = ''rgb(255, 255, 255)''"

subsection \<open>The state\<close>

text \<open>
  An element of class \<^verbatim>\<open>cell\<close>: its \<^verbatim>\<open>id\<close> and the background colour of its style
  (the empty string until a colour is assigned). Position, border and size are
  assigned once and never read, and are left out.
\<close>

record cell =
  cell_id :: cellId
  backgroundColor :: string

text \<open>
  The object \<^verbatim>\<open>state\<close>, followed by the part of the document the script writes:
  \<open>cells\<close> is what \<^verbatim>\<open>document.getElementsByClassName('cell')\<close> returns (the elements in
  document order), \<open>generationCountDisplay\<close> the number shown as the text of the
  generation display, \<open>startButton\<close> the text of the start button. The page itself
  brings no element of class \<^verbatim>\<open>cell\<close>: the only ones are those the script creates.
\<close>

record state =
  internalN :: nat
  generation :: int
  isProgressing :: bool
  chanceToBeLivingCell :: number
  currentCellState :: cellStates
  nextCellState :: cellStates
  progressionSpeed :: number
  cells :: "cell list"
  generationCountDisplay :: int
  startButton :: string

text \<open>
  The state the object literal builds, before any element exists. The two arguments are
  \<^verbatim>\<open>Number(percentCellIsAliveInput.value)\<close> and \<^verbatim>\<open>Number(speedProgressionInput.value)\<close>.
\<close>

definition initial_state :: "number \<Rightarrow> number \<Rightarrow> state" where
  "initial_state percentValue speedValue =
     \<lparr>internalN = 0, generation = 0, isProgressing = False,
      chanceToBeLivingCell = percentValue,
      currentCellState = [], nextCellState = [],
      progressionSpeed = speedValue,
      cells = [], generationCountDisplay = 0, startButton = ''Start''\<rparr>"

subsection \<open>The input fields\<close>

definition is_digit :: "char \<Rightarrow> bool" where
  "is_digit c = (c \<in> set ''0123456789'')"

text \<open>
  \<^verbatim>\<open>/[0-9]+/.test(value)\<close>: the pattern has no anchors, so the test looks for one or more
  digits starting at any position of the value.
\<close>

fun digits_test :: "string \<Rightarrow> bool" where
  "digits_test [] = False"
| "digits_test (c # cs) = (takeWhile is_digit (c # cs) \<noteq> [] \<or> digits_test cs)"

definition speedProgressionInput_onkeyup :: "(string \<Rightarrow> number) \<Rightarrow> string \<Rightarrow> state \<Rightarrow> state" where
  "speedProgressionInput_onkeyup Number value st =
     (if digits_test value then st\<lparr>progressionSpeed := Number value\<rparr> else st)"

definition percentCellIsAliveInput_onkeyup :: "(string \<Rightarrow> number) \<Rightarrow> string \<Rightarrow> state \<Rightarrow> state" where
  "percentCellIsAliveInput_onkeyup Number value st =
     (if digits_test value then st\<lparr>chanceToBeLivingCell := Number value\<rparr> else st)"

subsection \<open>initializeUniverse\<close>

text \<open>
  The body of the inner loop for row \<open>i\<close> and column \<open>j\<close>. \<open>random (i, j)\<close> is the value
  \<^verbatim>\<open>Math.random()\<close> returns for this cell; \<^verbatim>\<open>&&\<close> does not call it when the configured
  chance is falsy.
\<close>

definition initializeCell :: "(cellId \<Rightarrow> real) \<Rightarrow> int \<Rightarrow> int \<Rightarrow> state \<Rightarrow> state" where
  "initializeCell random i j st =
     (let cell0 = \<lparr>cell_id = (i, j), backgroundColor = ''''\<rparr>;
          cell1 = (if truthy (chanceToBeLivingCell st) \<and>
                      js_less (Finite (random (i, j) * (100 - 1) + 1)) (chanceToBeLivingCell st)
                   then cell0\<lparr>backgroundColor := LIGHTBLUE\<rparr> else cell0);
          st1 = (if backgroundColor cell1 = LIGHTBLUE
                 then st\<lparr>currentCellState := AList.update (cell_id cell1) 1 (currentCellState st)\<rparr>
                 else st\<lparr>currentCellState := AList.update (cell_id cell1) 0 (currentCellState st)\<rparr>)
      in st1\<lparr>cells := cells st1 @ [cell1]\<rparr>)"

definition initializeUniverse :: "(cellId \<Rightarrow> real) \<Rightarrow> state \<Rightarrow> state" where
  "initializeUniverse random st =
     fold (\<lambda>i. fold (\<lambda>j. initializeCell random i j) [0..COLS - 1]) [0..ROWS - 1] st"

subsection \<open>countNeighbors and evolve\<close>

text \<open>
  The result is \<open>None\<close> where the script's is \<^verbatim>\<open>NaN\<close>: the last line subtracts
  \<^verbatim>\<open>undefined\<close> when the cell asked about is not a key of the object. \<^verbatim>\<open>%\<close> is the
  remainder of the truncating division, \<open>smod\<close>.
\<close>

definition countNeighbors :: "state \<Rightarrow> cellId \<Rightarrow> int option" where
  "countNeighbors st = (\<lambda>(numericRow, numericCol).
     let sum = fold (\<lambda>i. fold (\<lambda>j sum.
                 let col = (numericRow + i + COLS) smod COLS;
                     row = (numericCol + j + ROWS) smod ROWS;
                     cellId = (col, row)
                 in sum + (if hasOwnProperty (currentCellState st) cellId
                           then (case map_of (currentCellState st) cellId of Some v \<Rightarrow> v | None \<Rightarrow> 0)
                           else 0)) [-1..1]) [-1..1] 0
     in case map_of (currentCellState st) (numericRow, numericCol) of
          None \<Rightarrow> None
        | Some v \<Rightarrow> Some (sum - v))"

text \<open>
  The body of the first loop of \<^verbatim>\<open>evolve\<close>, for one entry of
  \<^verbatim>\<open>Object.entries(state.currentCellState)\<close>. Every comparison with \<^verbatim>\<open>NaN\<close> is false.
\<close>

definition evolveCell :: "cellId \<times> int \<Rightarrow> state \<Rightarrow> state" where
  "evolveCell = (\<lambda>(cellId, cellState) st.
     let sumOfNeighbors = countNeighbors st cellId in
     if cellState = 1 \<and>
        (case sumOfNeighbors of None \<Rightarrow> False
         | Some s \<Rightarrow> s > MAX_ALIVE_NEIGHBORS \<or> s < MIN_ALIVE_NEIGHBORS)
     then st\<lparr>nextCellState := AList.update cellId 0 (nextCellState st)\<rparr>
     else if cellState = 0 \<and> sumOfNeighbors = Some MAX_ALIVE_NEIGHBORS
     then st\<lparr>nextCellState := AList.update cellId 1 (nextCellState st)\<rparr>
     else st\<lparr>nextCellState := AList.update cellId cellState (nextCellState st)\<rparr>)"

text \<open>The body of the second loop: a cell is painted by the truthiness of its new value.\<close>

definition paintCell :: "state \<Rightarrow> cell \<Rightarrow> cell" where
  "paintCell st cell =
     (if (case map_of (currentCellState st) (cell_id cell) of None \<Rightarrow> False | Some v \<Rightarrow> v \<noteq> 0)
      then cell\<lparr>backgroundColor := LIGHTBLUE\<rparr>
      else cell\<lparr>backgroundColor := WHITE\<rparr>)"

definition evolve :: "state \<Rightarrow> state" where
  "evolve st =
     (let st1 = fold evolveCell (currentCellState st) st;
          st2 = st1\<lparr>currentCellState := nextCellState st1\<rparr>;
          st3 = st2\<lparr>nextCellState := []\<rparr>
      in st3\<lparr>cells := map (paintCell st3) (cells st3)\<rparr>)"

subsection \<open>The timer, clearUniverse and randomize\<close>

text \<open>The callback handed to \<^verbatim>\<open>setInterval\<close>.\<close>

definition tick :: "state \<Rightarrow> state" where
  "tick st =
     (let st1 = st\<lparr>generation := generation st + 1\<rparr>;
          st2 = st1\<lparr>generationCountDisplay := generation st1\<rparr>
      in evolve st2)"

text \<open>\<open>timerId\<close> is the identifier \<^verbatim>\<open>setInterval\<close> returns.\<close>

definition handleStateProgression :: "nat \<Rightarrow> state \<Rightarrow> state" where
  "handleStateProgression timerId st =
     (let st1 = st\<lparr>isProgressing := \<not> isProgressing st\<rparr>
      in if isProgressing st1
         then st1\<lparr>internalN := timerId, startButton := ''Stop''\<rparr>
         else st1\<lparr>startButton := ''Start''\<rparr>)"

text \<open>
  Assigning the shorthand \<^verbatim>\<open>style.background\<close> sets the background colour of the
  element. The loop runs over the elements of the document, not over the keys of the
  object.
\<close>

definition clearCell :: "cell \<Rightarrow> state \<Rightarrow> state" where
  "clearCell cell st = st\<lparr>currentCellState := AList.update (cell_id cell) 0 (currentCellState st)\<rparr>"

definition clearUniverse :: "state \<Rightarrow> state" where
  "clearUniverse st =
     (let st1 = st\<lparr>generation := 0\<rparr>;
          st2 = fold clearCell (cells st1) st1
      in st2\<lparr>cells := map (\<lambda>cell. cell\<lparr>backgroundColor := WHITE\<rparr>) (cells st2)\<rparr>)"

definition randomize :: "(cellId \<Rightarrow> real) \<Rightarrow> state \<Rightarrow> state" where
  "randomize random st = initializeUniverse random (clearUniverse st)"

subsection \<open>The states the page can be in\<close>

text \<open>
  The script ends with a call of \<^verbatim>\<open>initializeUniverse\<close>; after that the page reacts to
  key strokes in the two fields, to the start button, to the timer while it is
  registered, and to the clear and randomize controls.
\<close>

inductive reachable :: "(string \<Rightarrow> number) \<Rightarrow> state \<Rightarrow> bool" for Number :: "string \<Rightarrow> number" where
  loaded: "reachable Number (initializeUniverse random (initial_state (Number percentText) (Number speedText)))"
| speed_key: "reachable Number st \<Longrightarrow> reachable Number (speedProgressionInput_onkeyup Number value st)"
| percent_key: "reachable Number st \<Longrightarrow> reachable Number (percentCellIsAliveInput_onkeyup Number value st)"
| start_stop: "reachable Number st \<Longrightarrow> reachable Number (handleStateProgression timerId st)"
| timer: "reachable Number st \<Longrightarrow> isProgressing st \<Longrightarrow> reachable Number (tick st)"
| cleared: "reachable Number st \<Longrightarrow> reachable Number (clearUniverse st)"
| randomized: "reachable Number st \<Longrightarrow> reachable Number (randomize random st)"

section \<open>Auxiliary definitions\<close>

subsection \<open>What the loops compute\<close>

text \<open>The value the three branches of \<^const>\<open>evolveCell\<close> write for a cell.\<close>

definition next_value :: "int \<Rightarrow> int option \<Rightarrow> int" where
  "next_value cellState sumOfNeighbors =
     (if cellState = 1 \<and>
         (case sumOfNeighbors of None \<Rightarrow> False
          | Some s \<Rightarrow> s > MAX_ALIVE_NEIGHBORS \<or> s < MIN_ALIVE_NEIGHBORS)
      then 0
      else if cellState = 0 \<and> sumOfNeighbors = Some MAX_ALIVE_NEIGHBORS then 1
      else cellState)"

text \<open>The keys the two loops of \<^const>\<open>initializeUniverse\<close> visit, in the order they visit them.\<close>

definition grid_keys :: "cellId list" where
  "grid_keys = List.product [0..ROWS - 1] [0..COLS - 1]"

text \<open>The condition under which \<^const>\<open>initializeCell\<close> colours the new element.\<close>

definition born :: "(cellId \<Rightarrow> real) \<Rightarrow> number \<Rightarrow> cellId \<Rightarrow> bool" where
  "born random chance k =
     (truthy chance \<and> js_less (Finite (random k * (100 - 1) + 1)) chance)"

definition new_cell :: "(cellId \<Rightarrow> real) \<Rightarrow> number \<Rightarrow> cellId \<Rightarrow> cell" where
  "new_cell random chance k =
     \<lparr>cell_id = k, backgroundColor = (if born random chance k then LIGHTBLUE else '''')\<rparr>"

text \<open>The object after assigning \<open>f k\<close> to each key \<open>k\<close> of a list in turn.\<close>

definition assign_all :: "(cellId \<Rightarrow> int) \<Rightarrow> cellId list \<Rightarrow> cellStates \<Rightarrow> cellStates" where
  "assign_all f ks obj = fold (\<lambda>k. AList.update k (f k)) ks obj"

text \<open>
  What holds of the state between two events: the object has the keys of the grid in
  row-major order, every value is 0 or 1, the scratch object is empty and the elements
  of the document carry the keys of the grid.
\<close>

definition grid_ok :: "state \<Rightarrow> bool" where
  "grid_ok st =
     (map fst (currentCellState st) = grid_keys \<and>
      snd ` set (currentCellState st) \<subseteq> {0, 1} \<and>
      nextCellState st = [] \<and>
      cell_id ` set (cells st) = set grid_keys)"

subsection \<open>The specification's words\<close>

text \<open>
  The live-neighbour count as the specification describes it: the nine offsets, each
  coordinate wrapped by the number of rows for the row and by the number of columns for
  the column, minus the cell's own value. An absent key reads as dead.
\<close>

definition live :: "cellStates \<Rightarrow> cellId \<Rightarrow> int" where
  "live grid k = (case map_of grid k of None \<Rightarrow> 0 | Some v \<Rightarrow> v)"

definition spec_liveNeighborCount :: "cellStates \<Rightarrow> cellId \<Rightarrow> int" where
  "spec_liveNeighborCount grid = (\<lambda>(r, c).
     (\<Sum>dr \<leftarrow> [-1, 0, 1]. \<Sum>dc \<leftarrow> [-1, 0, 1].
        live grid (((r + dr) smod ROWS + ROWS) smod ROWS, ((c + dc) smod COLS + COLS) smod COLS))
     - live grid (r, c))"

text \<open>The digit-only check of the specification: one or more characters, all of them digits.\<close>

definition digit_only :: "string \<Rightarrow> bool" where
  "digit_only s = (s \<noteq> [] \<and> list_all is_digit s)"

subsection \<open>Concrete states\<close>

text \<open>
  A page loaded with 50 in the percent field and 100 in the speed field, on which the
  random numbers make exactly the cells \<open>(0, 0)\<close> and \<open>(ROWS - 1, COLS - 1)\<close> alive.
\<close>

definition example_Number :: "string \<Rightarrow> number" where
  "example_Number s =
     (if s = ''0'' then Finite 0 else if s = ''50'' then Finite 50
      else if s = ''100'' then Finite 100 else NaN)"

definition corner_random :: "cellId \<Rightarrow> real" where
  "corner_random k = (if k = (0, 0) \<or> k = (ROWS - 1, COLS - 1) then 0 else 99 / 100)"

definition corner_state :: state where
  "corner_state = initializeUniverse corner_random (initial_state (Finite 50) (Finite 100))"

text \<open>The same page, on which the random numbers make exactly the cell \<open>(5, 40)\<close> alive.\<close>

definition lone_random :: "cellId \<Rightarrow> real" where
  "lone_random k = (if k = (5, 40) then 0 else 99 / 100)"

definition lone_state :: state where
  "lone_state = initializeUniverse lone_random (initial_state (Finite 50) (Finite 100))"

text \<open>
  The first page after a press of the start button, and after the key stroke that
  leaves 0 in the percent field.
\<close>

definition running_state :: state where
  "running_state = handleStateProgression 7 corner_state"

definition zero_chance_state :: state where
  "zero_chance_state = percentCellIsAliveInput_onkeyup example_Number ''0'' corner_state"

section \<open>The loops, step by step\<close>

subsection \<open>The loop of evolve\<close>

lemma evolveCell_writes:
  "evolveCell (k, v) st =
     st\<lparr>nextCellState := AList.update k (next_value v (countNeighbors st k)) (nextCellState st)\<rparr>"
  by (simp add: evolveCell_def next_value_def Let_def)

lemma countNeighbors_cong:
  "currentCellState s = currentCellState t \<Longrightarrow> countNeighbors s = countNeighbors t"
proof -
  assume eq: "currentCellState s = currentCellState t"
  show ?thesis unfolding countNeighbors_def eq ..
qed

lemma countNeighbors_nextCellState [simp]:
  "countNeighbors (st\<lparr>nextCellState := n\<rparr>) = countNeighbors st"
  by (rule countNeighbors_cong) simp

lemma fold_evolveCell_frame:
  "fold evolveCell es st = st\<lparr>nextCellState := nextCellState (fold evolveCell es st)\<rparr>"
proof (induction es arbitrary: st)
  case Nil
  show ?case by simp
next
  case (Cons e es)
  obtain k v where e: "e = (k, v)" by (cases e)
  have "fold evolveCell (e # es) st = fold evolveCell es (evolveCell e st)" by simp
  also have "\<dots> = (evolveCell e st)\<lparr>nextCellState := nextCellState (fold evolveCell es (evolveCell e st))\<rparr>"
    by (rule Cons.IH)
  also have "\<dots> = st\<lparr>nextCellState := nextCellState (fold evolveCell es (evolveCell e st))\<rparr>"
    by (simp add: e evolveCell_writes)
  finally show ?case by simp
qed

lemma fold_evolveCell_current:
  "currentCellState (fold evolveCell es st) = currentCellState st"
  by (subst fold_evolveCell_frame) simp

lemma fold_evolveCell_count:
  "countNeighbors (fold evolveCell es st) = countNeighbors st"
  by (rule countNeighbors_cong) (rule fold_evolveCell_current)

lemma fold_evolveCell_lookup:
  "distinct (map fst es) \<Longrightarrow>
   map_of (nextCellState (fold evolveCell es st)) k =
     (case map_of es k of
        None \<Rightarrow> map_of (nextCellState st) k
      | Some v \<Rightarrow> Some (next_value v (countNeighbors st k)))"
proof (induction es arbitrary: st)
  case Nil
  show ?case by simp
next
  case (Cons e es)
  obtain k0 v0 where e: "e = (k0, v0)" by (cases e)
  from Cons.prems have d: "distinct (map fst es)" and nk: "k0 \<notin> fst ` set es"
    by (auto simp: e)
  have cnt: "countNeighbors (evolveCell e st) = countNeighbors st"
    by (rule countNeighbors_cong) (simp add: e evolveCell_writes)
  have nk': "map_of es k0 = None" using nk by (simp add: map_of_eq_None_iff)
  show ?case
    using Cons.IH [OF d, of "evolveCell e st"] nk'
    by (auto simp: cnt e evolveCell_writes update_conv' split: option.splits)
qed

lemma update_fresh: "k \<notin> fst ` set al \<Longrightarrow> AList.update k v al = al @ [(k, v)]"
  by (induction al) auto

lemma fold_evolveCell_list:
  "distinct (map fst es) \<Longrightarrow> fst ` set es \<inter> fst ` set (nextCellState st) = {} \<Longrightarrow>
   nextCellState (fold evolveCell es st) =
     nextCellState st @ map (\<lambda>(k, v). (k, next_value v (countNeighbors st k))) es"
proof (induction es arbitrary: st)
  case Nil
  show ?case by simp
next
  case (Cons e es)
  obtain k0 v0 where e: "e = (k0, v0)" by (cases e)
  let ?st = "evolveCell (k0, v0) st"
  from Cons.prems have d: "distinct (map fst es)" and nk: "k0 \<notin> fst ` set es"
    and fresh: "k0 \<notin> fst ` set (nextCellState st)"
    and disj: "fst ` set es \<inter> fst ` set (nextCellState st) = {}"
    by (auto simp: e)
  have cnt: "countNeighbors ?st = countNeighbors st"
    by (simp add: evolveCell_writes)
  have nxt: "nextCellState ?st = nextCellState st @ [(k0, next_value v0 (countNeighbors st k0))]"
    by (simp add: evolveCell_writes update_fresh [OF fresh])
  have disj': "fst ` set es \<inter> fst ` set (nextCellState ?st) = {}"
    using disj nk by (auto simp: nxt)
  have "nextCellState (fold evolveCell es ?st) =
          nextCellState ?st @ map (\<lambda>(k, v). (k, next_value v (countNeighbors st k))) es"
    using Cons.IH [OF d disj'] unfolding cnt .
  also have "\<dots> = nextCellState st @
      map (\<lambda>(k, v). (k, next_value v (countNeighbors st k))) ((k0, v0) # es)"
    unfolding nxt by simp
  finally show ?case unfolding e by simp
qed

lemma evolve_current:
  assumes "distinct (map fst (currentCellState st))" and "nextCellState st = []"
  shows "currentCellState (evolve st) =
           map (\<lambda>(k, v). (k, next_value v (countNeighbors st k))) (currentCellState st)"
  using fold_evolveCell_list [OF assms(1), of st] assms(2)
  by (simp add: evolve_def Let_def)

lemma evolve_lookup:
  assumes "distinct (map fst (currentCellState st))"
  shows "map_of (currentCellState (evolve st)) k =
     (case map_of (currentCellState st) k of
        None \<Rightarrow> map_of (nextCellState st) k
      | Some v \<Rightarrow> Some (next_value v (countNeighbors st k)))"
  using fold_evolveCell_lookup [OF assms, of st k]
  by (simp add: evolve_def Let_def)

subsection \<open>initializeUniverse and clearUniverse\<close>

lemma set_grid_keys:
  "set grid_keys = {(r, c). 0 \<le> r \<and> r < ROWS \<and> 0 \<le> c \<and> c < COLS}"
  by (auto simp: grid_keys_def)

lemma distinct_grid_keys: "distinct grid_keys"
  by (simp add: grid_keys_def distinct_product)

lemma fold_nested:
  "fold (\<lambda>i. fold (\<lambda>j. f i j) js) is st = fold (\<lambda>(i, j). f i j) (List.product is js) st"
proof (induction "is" arbitrary: st)
  case Nil
  show ?case by simp
next
  case (Cons i "is")
  have "fold (\<lambda>(i, j). f i j) (map (Pair i) js) st = fold (\<lambda>j. f i j) js st"
    by (simp add: fold_map comp_def)
  then show ?case using Cons.IH by simp
qed

lemma initializeUniverse_fold:
  "initializeUniverse random st = fold (\<lambda>(i, j). initializeCell random i j) grid_keys st"
  by (simp add: initializeUniverse_def grid_keys_def fold_nested)

lemma initializeCell_writes:
  "initializeCell random i j st =
     st\<lparr>currentCellState :=
          AList.update (i, j) (if born random (chanceToBeLivingCell st) (i, j) then 1 else 0)
            (currentCellState st),
        cells := cells st @ [new_cell random (chanceToBeLivingCell st) (i, j)]\<rparr>"
  by (simp add: initializeCell_def born_def new_cell_def Let_def LIGHTBLUE_def)

lemma fold_initializeCell:
  "fold (\<lambda>(i, j). initializeCell random i j) ks st =
     st\<lparr>currentCellState :=
          assign_all (\<lambda>k. if born random (chanceToBeLivingCell st) k then 1 else 0) ks
            (currentCellState st),
        cells := cells st @ map (new_cell random (chanceToBeLivingCell st)) ks\<rparr>"
proof (induction ks arbitrary: st)
  case Nil
  show ?case by (simp add: assign_all_def)
next
  case (Cons k ks)
  obtain i j where k: "k = (i, j)" by (cases k)
  let ?F = "\<lambda>(i, j). initializeCell random i j"
  let ?st1 = "initializeCell random i j st"
  have "fold ?F (k # ks) st = fold ?F ks ?st1"
    by (simp add: k)
  also have "\<dots> = ?st1\<lparr>currentCellState :=
          assign_all (\<lambda>k. if born random (chanceToBeLivingCell ?st1) k then 1 else 0) ks
            (currentCellState ?st1),
        cells := cells ?st1 @ map (new_cell random (chanceToBeLivingCell ?st1)) ks\<rparr>"
    by (rule Cons.IH)
  also have "\<dots> = st\<lparr>currentCellState :=
          assign_all (\<lambda>k. if born random (chanceToBeLivingCell st) k then 1 else 0) (k # ks)
            (currentCellState st),
        cells := cells st @ map (new_cell random (chanceToBeLivingCell st)) (k # ks)\<rparr>"
    by (simp add: initializeCell_writes assign_all_def k)
  finally show ?case .
qed

lemma assign_all_lookup:
  "map_of (assign_all f ks obj) k = (if k \<in> set ks then Some (f k) else map_of obj k)"
  unfolding assign_all_def
  by (induction ks arbitrary: obj) (auto simp: update_conv')

lemma assign_all_keys_present:
  "set ks \<subseteq> fst ` set obj \<Longrightarrow> map fst (assign_all f ks obj) = map fst obj"
  unfolding assign_all_def
proof (induction ks arbitrary: obj)
  case Nil
  show ?case by simp
next
  case (Cons k ks)
  have keys: "map fst (AList.update k (f k) obj) = map fst obj"
    using Cons.prems by (simp add: update_keys)
  have "set ks \<subseteq> fst ` set (AList.update k (f k) obj)"
    using Cons.prems by (auto simp: dom_update)
  from Cons.IH [OF this] show ?case by (simp add: keys)
qed

lemma assign_all_keys_fresh:
  "distinct ks \<Longrightarrow> set ks \<inter> fst ` set obj = {} \<Longrightarrow>
   map fst (assign_all f ks obj) = map fst obj @ ks"
  unfolding assign_all_def
proof (induction ks arbitrary: obj)
  case Nil
  show ?case by simp
next
  case (Cons k ks)
  from Cons.prems have fresh: "k \<notin> fst ` set obj" by auto
  have keys: "map fst (AList.update k (f k) obj) = map fst obj @ [k]"
    by (simp add: update_fresh [OF fresh])
  have "distinct ks" and "set ks \<inter> fst ` set (AList.update k (f k) obj) = {}"
    using Cons.prems by (auto simp: dom_update)
  from Cons.IH [OF this] show ?case by (simp add: keys)
qed

lemma set_update_subset: "set (AList.update k v obj) \<subseteq> insert (k, v) (set obj)"
  by (induction obj) auto

lemma assign_all_values:
  "snd ` set obj \<subseteq> V \<Longrightarrow> f ` set ks \<subseteq> V \<Longrightarrow> snd ` set (assign_all f ks obj) \<subseteq> V"
  unfolding assign_all_def
proof (induction ks arbitrary: obj)
  case Nil
  then show ?case by simp
next
  case (Cons k ks)
  have "snd ` set (AList.update k (f k) obj) \<subseteq> V"
    using set_update_subset [of k "f k" obj] Cons.prems by fastforce
  moreover have "f ` set ks \<subseteq> V" using Cons.prems by auto
  ultimately show ?case using Cons.IH by simp
qed

lemma assign_all_idem:
  "(\<forall>k \<in> set ks. map_of obj k = Some (f k)) \<Longrightarrow> assign_all f ks obj = obj"
  unfolding assign_all_def
  by (induction ks arbitrary: obj) (auto simp: update_triv)

lemma fold_clearCell:
  "fold clearCell cs st =
     st\<lparr>currentCellState := assign_all (\<lambda>k. 0) (map cell_id cs) (currentCellState st)\<rparr>"
  by (induction cs arbitrary: st) (simp_all add: clearCell_def assign_all_def)

lemma clearUniverse_writes:
  "clearUniverse st =
     st\<lparr>generation := 0,
        currentCellState := assign_all (\<lambda>k. 0) (map cell_id (cells st)) (currentCellState st),
        cells := map (\<lambda>cell. cell\<lparr>backgroundColor := WHITE\<rparr>) (cells st)\<rparr>"
  by (simp add: clearUniverse_def Let_def fold_clearCell)

lemma clearUniverse_idem: "clearUniverse (clearUniverse st) = clearUniverse st"
proof -
  let ?ids = "map cell_id (cells st)"
  let ?obj = "assign_all (\<lambda>k. 0) ?ids (currentCellState st)"
  have ids: "map cell_id (map (\<lambda>cell. cell\<lparr>backgroundColor := WHITE\<rparr>) (cells st)) = ?ids"
    by (simp add: comp_def)
  have "assign_all (\<lambda>k. 0) ?ids ?obj = ?obj"
    by (rule assign_all_idem) (simp add: assign_all_lookup)
  then show ?thesis
    by (simp add: clearUniverse_writes ids comp_def)
qed

subsection \<open>The invariant of the page\<close>

lemma initializeUniverse_writes:
  "initializeUniverse random st =
     st\<lparr>currentCellState :=
          assign_all (\<lambda>k. if born random (chanceToBeLivingCell st) k then 1 else 0) grid_keys
            (currentCellState st),
        cells := cells st @ map (new_cell random (chanceToBeLivingCell st)) grid_keys\<rparr>"
  by (simp add: initializeUniverse_fold fold_initializeCell)

lemma cell_id_new_cell: "cell_id (new_cell random chance k) = k"
  by (simp add: new_cell_def)

lemma grid_ok_loaded: "grid_ok (initializeUniverse random (initial_state p s))"
proof -
  let ?f = "\<lambda>k. if born random p k then 1 else (0::int)"
  have keys: "map fst (assign_all ?f grid_keys []) = grid_keys"
    using assign_all_keys_fresh [OF distinct_grid_keys, of "[]" ?f] by simp
  have vals: "snd ` set (assign_all ?f grid_keys []) \<subseteq> {0, 1}"
    by (rule assign_all_values) auto
  have ids: "cell_id ` set (map (new_cell random p) grid_keys) = set grid_keys"
    by (force simp: cell_id_new_cell)
  show ?thesis
    using keys vals ids
    by (simp add: grid_ok_def initializeUniverse_writes initial_state_def)
qed

lemma grid_ok_initializeUniverse:
  assumes "grid_ok st"
  shows "grid_ok (initializeUniverse random st)"
proof -
  let ?f = "\<lambda>k. if born random (chanceToBeLivingCell st) k then 1 else (0::int)"
  let ?obj = "currentCellState st"
  from assms have k0: "map fst ?obj = grid_keys" and v0: "snd ` set ?obj \<subseteq> {0, 1}"
    and n0: "nextCellState st = []" and c0: "cell_id ` set (cells st) = set grid_keys"
    by (simp_all add: grid_ok_def)
  have "set grid_keys \<subseteq> fst ` set ?obj"
    using k0 by (metis set_map subset_refl)
  then have keys: "map fst (assign_all ?f grid_keys ?obj) = grid_keys"
    using assign_all_keys_present [of grid_keys ?obj ?f] k0 by simp
  have vals: "snd ` set (assign_all ?f grid_keys ?obj) \<subseteq> {0, 1}"
    by (rule assign_all_values [OF v0]) auto
  have ids: "cell_id ` set (cells st @ map (new_cell random (chanceToBeLivingCell st)) grid_keys)
               = set grid_keys"
    using c0 by (force simp: cell_id_new_cell image_Un)
  show ?thesis
    using keys vals ids n0
    by (simp add: grid_ok_def initializeUniverse_writes)
qed

lemma grid_ok_clearUniverse:
  assumes "grid_ok st"
  shows "grid_ok (clearUniverse st)"
proof -
  let ?obj = "currentCellState st"
  let ?ids = "map cell_id (cells st)"
  from assms have k0: "map fst ?obj = grid_keys" and v0: "snd ` set ?obj \<subseteq> {0, 1}"
    and n0: "nextCellState st = []" and c0: "cell_id ` set (cells st) = set grid_keys"
    by (simp_all add: grid_ok_def)
  have "set ?ids \<subseteq> fst ` set ?obj"
    using k0 c0 by (metis set_map subset_refl)
  then have keys: "map fst (assign_all (\<lambda>k. 0) ?ids ?obj) = grid_keys"
    using assign_all_keys_present [of ?ids ?obj "\<lambda>k. 0"] k0 by simp
  have vals: "snd ` set (assign_all (\<lambda>k. 0) ?ids ?obj) \<subseteq> {0, 1}"
    by (rule assign_all_values [OF v0]) auto
  have ids: "cell_id ` set (map (\<lambda>cell. cell\<lparr>backgroundColor := WHITE\<rparr>) (cells st)) = set grid_keys"
    using c0 by (force simp: image_image)
  show ?thesis
    using keys vals ids n0
    by (simp add: grid_ok_def clearUniverse_writes)
qed

lemma next_value_binary: "v \<in> {0, 1} \<Longrightarrow> next_value v n \<in> {0, 1}"
  by (auto simp: next_value_def)

lemma cell_id_paintCell: "cell_id (paintCell st c) = cell_id c"
  by (simp add: paintCell_def)

lemma evolve_cell_ids: "map cell_id (cells (evolve st)) = map cell_id (cells st)"
proof -
  have "cells (fold evolveCell (currentCellState st) st) = cells st"
    by (subst fold_evolveCell_frame) simp
  then show ?thesis
    by (simp add: evolve_def Let_def comp_def cell_id_paintCell)
qed

lemma evolve_next: "nextCellState (evolve st) = []"
  by (simp add: evolve_def Let_def)

lemma grid_ok_evolve:
  assumes "grid_ok st"
  shows "grid_ok (evolve st)"
proof -
  let ?obj = "currentCellState st"
  from assms have k0: "map fst ?obj = grid_keys" and v0: "snd ` set ?obj \<subseteq> {0, 1}"
    and n0: "nextCellState st = []" and c0: "cell_id ` set (cells st) = set grid_keys"
    by (simp_all add: grid_ok_def)
  have d: "distinct (map fst ?obj)" by (simp add: k0 distinct_grid_keys)
  have cur: "currentCellState (evolve st) =
      map (\<lambda>(k, v). (k, next_value v (countNeighbors st k))) ?obj"
    by (rule evolve_current [OF d n0])
  have keys: "map fst (currentCellState (evolve st)) = grid_keys"
    unfolding cur using k0 by (simp add: comp_def case_prod_unfold)
  have vals: "snd ` set (currentCellState (evolve st)) \<subseteq> {0, 1}"
  proof
    fix x
    assume "x \<in> snd ` set (currentCellState (evolve st))"
    then obtain k v where kv: "(k, v) \<in> set ?obj"
      and x: "x = next_value v (countNeighbors st k)"
      unfolding cur by auto
    from kv v0 have "v \<in> {0, 1}" by force
    then show "x \<in> {0, 1}" unfolding x by (rule next_value_binary)
  qed
  have "set (map cell_id (cells (evolve st))) = set (map cell_id (cells st))"
    by (simp only: evolve_cell_ids)
  then have ids: "cell_id ` set (cells (evolve st)) = set grid_keys"
    using c0 by (simp only: set_map)
  show ?thesis
    using keys vals ids by (simp add: grid_ok_def evolve_next)
qed

lemma reachable_grid_ok: "reachable Number st \<Longrightarrow> grid_ok st"
proof (induction rule: reachable.induct)
  case (loaded random percentText speedText)
  show ?case by (rule grid_ok_loaded)
next
  case (speed_key st "value")
  then show ?case
    by (simp add: speedProgressionInput_onkeyup_def grid_ok_def)
next
  case (percent_key st "value")
  then show ?case
    by (simp add: percentCellIsAliveInput_onkeyup_def grid_ok_def)
next
  case (start_stop st timerId)
  then show ?case
    by (simp add: handleStateProgression_def Let_def grid_ok_def)
next
  case (timer st)
  let ?st2 = "st\<lparr>generation := generation st + 1, generationCountDisplay := generation st + 1\<rparr>"
  have "grid_ok ?st2" using timer.IH by (simp add: grid_ok_def)
  then have "grid_ok (evolve ?st2)" by (rule grid_ok_evolve)
  then show ?case by (simp add: tick_def Let_def)
next
  case (cleared st)
  then show ?case by (simp add: grid_ok_clearUniverse)
next
  case (randomized st random)
  then show ?case by (simp add: randomize_def grid_ok_clearUniverse grid_ok_initializeUniverse)
qed

subsection \<open>The concrete states\<close>

lemma upto_offsets: "[-1..1] = [-1, 0, 1::int]"
  by code_simp

lemma initializeUniverse_lookup:
  "map_of (currentCellState (initializeUniverse random st)) k =
     (if k \<in> set grid_keys
      then Some (if born random (chanceToBeLivingCell st) k then 1 else 0)
      else map_of (currentCellState st) k)"
  by (simp add: initializeUniverse_writes assign_all_lookup)

lemma in_grid_keys:
  "(r, c) \<in> set grid_keys \<longleftrightarrow> 0 \<le> r \<and> r < 30 \<and> 0 \<le> c \<and> c < 50"
  by (simp add: set_grid_keys ROWS_def COLS_def)

lemma corner_lookup:
  "map_of (currentCellState corner_state) (r, c) =
     (if 0 \<le> r \<and> r < 30 \<and> 0 \<le> c \<and> c < 50
      then Some (if (r, c) = (0, 0) \<or> (r, c) = (29, 49) then 1 else 0) else None)"
  by (simp add: corner_state_def initializeUniverse_lookup in_grid_keys born_def
      corner_random_def initial_state_def ROWS_def COLS_def)

lemma lone_lookup:
  "map_of (currentCellState lone_state) (r, c) =
     (if 0 \<le> r \<and> r < 30 \<and> 0 \<le> c \<and> c < 50
      then Some (if (r, c) = (5, 40) then 1 else 0) else None)"
  by (simp add: lone_state_def initializeUniverse_lookup in_grid_keys born_def
      lone_random_def initial_state_def)

lemma reachable_corner_state: "reachable example_Number corner_state"
  using reachable.loaded [of example_Number corner_random "''50''" "''100''"]
  by (simp add: corner_state_def example_Number_def)

lemma reachable_running_state: "reachable example_Number running_state"
  unfolding running_state_def by (rule reachable.start_stop [OF reachable_corner_state])

lemma isProgressing_running_state: "isProgressing running_state"
  by (simp add: running_state_def handleStateProgression_def corner_state_def
      initializeUniverse_writes initial_state_def)

lemma reachable_zero_chance_state: "reachable example_Number zero_chance_state"
  unfolding zero_chance_state_def by (rule reachable.percent_key [OF reachable_corner_state])

lemma chance_zero_chance_state: "chanceToBeLivingCell zero_chance_state = Finite 0"
  by (simp add: zero_chance_state_def percentCellIsAliveInput_onkeyup_def is_digit_def
      example_Number_def)

lemma reachable_distinct: "reachable Number st \<Longrightarrow> distinct (map fst (currentCellState st))"
  using reachable_grid_ok [of Number st] by (simp add: grid_ok_def distinct_grid_keys)

subsection \<open>An object is determined by its keys and its values\<close>

lemma alist_determined:
  "map fst al = ks \<Longrightarrow> distinct ks \<Longrightarrow> \<forall>k \<in> set ks. map_of al k = Some (f k) \<Longrightarrow>
   al = map (\<lambda>k. (k, f k)) ks"
proof (induction al arbitrary: ks)
  case Nil
  then show ?case by simp
next
  case (Cons e al)
  obtain k v where e: "e = (k, v)" by (cases e)
  from Cons.prems(1) obtain ks' where ks: "ks = k # ks'" and keys: "map fst al = ks'"
    by (auto simp: e)
  from Cons.prems(2) have d: "distinct ks'" and nk: "k \<notin> set ks'"
    by (simp_all add: ks)
  from Cons.prems(3) have v: "v = f k"
    by (simp add: ks e)
  have "\<forall>k' \<in> set ks'. map_of al k' = Some (f k')"
  proof
    fix k'
    assume k': "k' \<in> set ks'"
    then have "k' \<noteq> k" using nk by auto
    moreover have "map_of (e # al) k' = Some (f k')"
      using Cons.prems(3) k' by (simp add: ks)
    ultimately show "map_of al k' = Some (f k')" by (simp add: e)
  qed
  from Cons.IH [OF keys d this] show ?case
    by (simp add: ks e v)
qed

lemma clearUniverse_lookup:
  "map_of (currentCellState (clearUniverse st)) k =
     (if k \<in> cell_id ` set (cells st) then Some 0 else map_of (currentCellState st) k)"
  by (simp add: clearUniverse_writes assign_all_lookup)

subsection \<open>Wrapping and counting\<close>

lemma smod_nonneg: "0 \<le> a \<Longrightarrow> 0 < n \<Longrightarrow> a smod n = a mod (n::int)"
  by (cases "a = 0") (simp_all add: smod_int_alt_def)

lemma smod_add_same: "0 \<le> x \<Longrightarrow> x < n \<Longrightarrow> (x + n) smod n = (x::int)"
  by (simp add: smod_nonneg)

lemma smod_wrap_twice: "0 \<le> x \<Longrightarrow> x < n \<Longrightarrow> (x smod n + n) smod n = (x::int)"
  by (simp add: smod_nonneg)

lemma fold_evolveCell_generation: "generation (fold evolveCell es st) = generation st"
  by (subst fold_evolveCell_frame) simp

lemma read_live:
  "(if hasOwnProperty obj k then (case map_of obj k of Some v \<Rightarrow> v | None \<Rightarrow> 0) else 0) = live obj k"
  by (simp add: hasOwnProperty_def live_def split: option.splits)

lemma countNeighbors_sum:
  "countNeighbors st (r, c) =
     (case map_of (currentCellState st) (r, c) of
        None \<Rightarrow> None
      | Some v \<Rightarrow> Some ((\<Sum>i \<leftarrow> [-1, 0, 1]. \<Sum>j \<leftarrow> [-1, 0, 1].
           live (currentCellState st) ((r + i + COLS) smod COLS, (c + j + ROWS) smod ROWS)) - v))"
  by (simp add: countNeighbors_def upto_offsets Let_def read_live split: option.splits)

lemma live_binary:
  assumes "snd ` set obj \<subseteq> {0, 1}"
  shows "0 \<le> live obj k \<and> live obj k \<le> 1"
proof (cases "map_of obj k")
  case None
  then show ?thesis by (simp add: live_def)
next
  case (Some x)
  then have "(k, x) \<in> set obj" by (rule map_of_SomeD)
  then have "x \<in> snd ` set obj" by force
  with assms have "x = 0 \<or> x = 1" by auto
  then show ?thesis using Some by (auto simp: live_def)
qed

lemma digits_test_iff: "digits_test s = list_ex is_digit s"
  by (induction s) auto

section \<open>The claims\<close>

text \<open>
  C1. The specification wraps the row of a neighbour by the number of rows and its column
  by the number of columns, so that on a grid where only \<open>(0, 0)\<close> and
  \<open>(ROWS - 1, COLS - 1)\<close> are alive the count at \<open>(0, 0)\<close> is 1. \<^const>\<open>countNeighbors\<close>
  wraps the row by \<open>COLS\<close> and the column by \<open>ROWS\<close>: on that grid it looks for row 49,
  which is not a key, and returns 0.
\<close>

theorem countNeighbors_misses_opposite_corner:
  "map_of (currentCellState corner_state) (0, 0) = Some 1 \<and>
   map_of (currentCellState corner_state) (ROWS - 1, COLS - 1) = Some 1 \<and>
   countNeighbors corner_state (0, 0) = Some 0 \<and>
   spec_liveNeighborCount (currentCellState corner_state) (0, 0) = 1"
  by (simp add: countNeighbors_def spec_liveNeighborCount_def live_def upto_offsets
      hasOwnProperty_def corner_lookup ROWS_def COLS_def smod_int_alt_def Let_def)

text \<open>
  C2. On a grid of zeros and ones the neighbour count of a cell in range should lie
  between 0 and 8. For the cell \<open>(5, 40)\<close>, alive and alone, \<^const>\<open>countNeighbors\<close> reads
  the columns 9, 10 and 11 instead of 39, 40 and 41, sums zero and subtracts the cell's
  own value: the result is \<open>-1\<close>.
\<close>

theorem countNeighbors_negative:
  "snd ` set (currentCellState lone_state) \<subseteq> {0, 1} \<and>
   map_of (currentCellState lone_state) (5, 40) = Some 1 \<and>
   countNeighbors lone_state (5, 40) = Some (- 1)"
proof -
  have "grid_ok lone_state"
    unfolding lone_state_def by (rule grid_ok_loaded)
  then have "snd ` set (currentCellState lone_state) \<subseteq> {0, 1}"
    by (simp add: grid_ok_def)
  moreover have "countNeighbors lone_state (5, 40) = Some (- 1)"
    by (simp add: countNeighbors_def upto_offsets hasOwnProperty_def lone_lookup
        ROWS_def COLS_def smod_int_alt_def Let_def)
  ultimately show ?thesis by (simp add: lone_lookup)
qed

text \<open>
  C3. For every cell of the object, with the neighbour count \<open>n\<close> that
  \<^const>\<open>countNeighbors\<close> returns for it before the step: a cell of value 1 has value 1
  after \<^const>\<open>evolve\<close> if \<open>n\<close> is 2 or 3 and value 0 otherwise; a cell of value 0 has
  value 1 after \<^const>\<open>evolve\<close> if \<open>n\<close> is 3 and value 0 otherwise.
\<close>

theorem evolve_applies_B3S23:
  assumes "distinct (map fst (currentCellState st))"
    and "map_of (currentCellState st) cellId = Some cellState"
  shows "\<exists>n. countNeighbors st cellId = Some n \<and>
    (cellState = 1 \<longrightarrow>
       map_of (currentCellState (evolve st)) cellId = Some (if n = 2 \<or> n = 3 then 1 else 0)) \<and>
    (cellState = 0 \<longrightarrow>
       map_of (currentCellState (evolve st)) cellId = Some (if n = 3 then 1 else 0))"
proof -
  obtain row col where k: "cellId = (row, col)" by (cases cellId)
  from assms(2) obtain n where n: "countNeighbors st cellId = Some n"
    by (simp add: countNeighbors_def k Let_def)
  have "map_of (currentCellState (evolve st)) cellId = Some (next_value cellState (Some n))"
    using evolve_lookup [OF assms(1), of cellId] assms(2) n by simp
  then show ?thesis
    using n by (auto simp: next_value_def MAX_ALIVE_NEIGHBORS_def MIN_ALIVE_NEIGHBORS_def)
qed

theorem evolve_applies_B3S23_witness:
  "countNeighbors corner_state (0, 0) = Some 0 \<and>
   map_of (currentCellState corner_state) (0, 0) = Some 1 \<and>
   map_of (currentCellState (evolve corner_state)) (0, 0) = Some 0"
proof -
  have d: "distinct (map fst (currentCellState corner_state))"
    by (rule reachable_distinct [OF reachable_corner_state])
  have v: "map_of (currentCellState corner_state) (0, 0) = Some 1"
    by (simp add: corner_lookup)
  have c: "countNeighbors corner_state (0, 0) = Some 0"
    by (simp add: countNeighbors_def upto_offsets hasOwnProperty_def corner_lookup
        ROWS_def COLS_def smod_int_alt_def Let_def)
  show ?thesis
    using evolve_applies_B3S23 [OF d v] c v by simp
qed

text \<open>
  C4. Within one call of \<^const>\<open>evolve\<close>, after the loop has handled any list \<open>es\<close> of
  entries, the object of current values is still the one the call started with and every
  neighbour count is the count in the starting state; the next iteration therefore writes
  the value of the rule at the count of the starting state. The current object is
  replaced by the object of next values only when the loop over all entries is done.
\<close>

theorem evolve_reads_one_snapshot:
  "currentCellState (fold evolveCell es st) = currentCellState st \<and>
   countNeighbors (fold evolveCell es st) = countNeighbors st \<and>
   nextCellState (evolveCell (cellId, cellState) (fold evolveCell es st)) =
     AList.update cellId (next_value cellState (countNeighbors st cellId))
       (nextCellState (fold evolveCell es st)) \<and>
   currentCellState (evolve st) = nextCellState (fold evolveCell (currentCellState st) st)"
  by (simp add: fold_evolveCell_current fold_evolveCell_count evolveCell_writes
      evolve_def Let_def)

text \<open>
  C5. A cell should start alive with probability \<open>p / 100\<close>. The draw compared with the
  configured chance is \<open>Math.random() * 99 + 1\<close>, which is never below 1: with the chance
  set to 1 percent, whatever numbers between 0 and 1 are drawn, every cell of the grid
  starts dead.
\<close>

theorem one_percent_is_never_born:
  assumes "chanceToBeLivingCell st = Finite 1"
    and "\<forall>k. 0 \<le> random k \<and> random k < 1"
    and "0 \<le> row" "row < ROWS" "0 \<le> col" "col < COLS"
  shows "map_of (currentCellState (initializeUniverse random st)) (row, col) = Some 0"
proof -
  have "0 \<le> random (row, col)" using assms(2) by simp
  then have "\<not> born random (Finite 1) (row, col)"
    by (simp add: born_def)
  moreover have "(row, col) \<in> set grid_keys"
    using assms(3-6) by (simp add: set_grid_keys)
  ultimately show ?thesis
    by (simp add: initializeUniverse_lookup assms(1))
qed

theorem one_percent_is_never_born_witness:
  "map_of (currentCellState (initializeUniverse (\<lambda>k. 1 / 200) (initial_state (Finite 1) (Finite 100))))
     (3, 7) = Some 0"
  using one_percent_is_never_born
    [of "initial_state (Finite 1) (Finite 100)" "\<lambda>k. 1 / 200" 3 7]
  by (simp add: initial_state_def ROWS_def COLS_def)

text \<open>
  C6. A value should be stored only when it consists of digits. The test of both
  handlers accepts every value that contains a digit: the values \<open>-5\<close> and \<open>1a\<close> are not
  digit-only, and both handlers overwrite the stored number with what \<^verbatim>\<open>Number\<close> makes
  of them.
\<close>

theorem onkeyup_accepts_more_than_digits:
  "\<not> digit_only ''-5'' \<and> \<not> digit_only ''1a'' \<and>
   progressionSpeed (speedProgressionInput_onkeyup Number ''-5'' st) = Number ''-5'' \<and>
   progressionSpeed (speedProgressionInput_onkeyup Number ''1a'' st) = Number ''1a'' \<and>
   chanceToBeLivingCell (percentCellIsAliveInput_onkeyup Number ''-5'' st) = Number ''-5'' \<and>
   chanceToBeLivingCell (percentCellIsAliveInput_onkeyup Number ''1a'' st) = Number ''1a''"
  by (simp add: digit_only_def is_digit_def speedProgressionInput_onkeyup_def
      percentCellIsAliveInput_onkeyup_def)

text \<open>
  C7. In every state the page can be in, \<^const>\<open>clearUniverse\<close> sets the value of every
  coordinate in range to 0 (and leaves no other value in the object), sets the
  generation to 0, and keeps the keys of the object as they were; clearing twice gives
  the same state as clearing once.
\<close>

theorem clearUniverse_all_dead_and_idempotent:
  assumes "reachable Number st"
  shows "(\<forall>row col. 0 \<le> row \<and> row < ROWS \<and> 0 \<le> col \<and> col < COLS \<longrightarrow>
            map_of (currentCellState (clearUniverse st)) (row, col) = Some 0) \<and>
         snd ` set (currentCellState (clearUniverse st)) \<subseteq> {0} \<and>
         generation (clearUniverse st) = 0 \<and>
         map fst (currentCellState (clearUniverse st)) = map fst (currentCellState st) \<and>
         clearUniverse (clearUniverse st) = clearUniverse st"
proof -
  from assms have ok: "grid_ok st" by (rule reachable_grid_ok)
  then have ok': "grid_ok (clearUniverse st)" by (rule grid_ok_clearUniverse)
  from ok have ids: "cell_id ` set (cells st) = set grid_keys"
    and keys: "map fst (currentCellState st) = grid_keys"
    by (simp_all add: grid_ok_def)
  from ok' have keys': "map fst (currentCellState (clearUniverse st)) = grid_keys"
    by (simp add: grid_ok_def)
  have look: "\<forall>k \<in> set grid_keys. map_of (currentCellState (clearUniverse st)) k = Some 0"
    by (simp add: clearUniverse_lookup ids)
  have all: "currentCellState (clearUniverse st) = map (\<lambda>k. (k, 0)) grid_keys"
    by (rule alist_determined [OF keys' distinct_grid_keys look])
  have "snd ` set (currentCellState (clearUniverse st)) \<subseteq> {0}"
    unfolding all by auto
  moreover have "generation (clearUniverse st) = 0"
    by (simp add: clearUniverse_writes)
  ultimately show ?thesis
    using look by (simp add: set_grid_keys keys keys' clearUniverse_idem)
qed

theorem clearUniverse_all_dead_and_idempotent_witness:
  "map_of (currentCellState (clearUniverse corner_state)) (0, 0) = Some 0 \<and>
   snd ` set (currentCellState (clearUniverse corner_state)) \<subseteq> {0} \<and>
   generation (clearUniverse corner_state) = 0 \<and>
   map fst (currentCellState (clearUniverse corner_state)) = map fst (currentCellState corner_state) \<and>
   clearUniverse (clearUniverse corner_state) = clearUniverse corner_state"
  using clearUniverse_all_dead_and_idempotent [OF reachable_corner_state]
  by (simp add: ROWS_def COLS_def)

text \<open>
  C8. In every state the page can be in, if the configured chance is falsy (0 or NaN),
  \<^const>\<open>randomize\<close> gives a grid in which every cell has value 0, whatever random numbers
  are drawn.
\<close>

theorem randomize_with_falsy_chance_is_all_dead:
  assumes "reachable Number st" and "\<not> truthy (chanceToBeLivingCell st)"
  shows "(\<forall>row col. 0 \<le> row \<and> row < ROWS \<and> 0 \<le> col \<and> col < COLS \<longrightarrow>
            map_of (currentCellState (randomize random st)) (row, col) = Some 0) \<and>
         snd ` set (currentCellState (randomize random st)) \<subseteq> {0}"
proof -
  let ?st = "clearUniverse st"
  from assms(1) have "grid_ok ?st"
    by (simp add: reachable_grid_ok grid_ok_clearUniverse)
  then have "grid_ok (randomize random st)"
    unfolding randomize_def by (rule grid_ok_initializeUniverse)
  then have keys: "map fst (currentCellState (randomize random st)) = grid_keys"
    by (simp add: grid_ok_def)
  have ch: "chanceToBeLivingCell ?st = chanceToBeLivingCell st"
    by (simp add: clearUniverse_writes)
  have look: "\<forall>k \<in> set grid_keys. map_of (currentCellState (randomize random st)) k = Some 0"
    using assms(2) by (simp add: randomize_def initializeUniverse_lookup ch born_def)
  have all: "currentCellState (randomize random st) = map (\<lambda>k. (k, 0)) grid_keys"
    by (rule alist_determined [OF keys distinct_grid_keys look])
  have "snd ` set (currentCellState (randomize random st)) \<subseteq> {0}"
    unfolding all by auto
  then show ?thesis
    using look by (simp add: set_grid_keys)
qed

theorem randomize_with_falsy_chance_is_all_dead_witness:
  "map_of (currentCellState (randomize corner_random zero_chance_state)) (0, 0) = Some 0 \<and>
   snd ` set (currentCellState (randomize corner_random zero_chance_state)) \<subseteq> {0}"
  using randomize_with_falsy_chance_is_all_dead [OF reachable_zero_chance_state, of corner_random]
  by (simp add: chance_zero_chance_state ROWS_def COLS_def)

text \<open>
  C9. In every state the page can be in (after the script has loaded, and after every
  key stroke, start or stop, tick of the timer, clear and randomize) the object of
  current values has every key once, its keys are exactly the coordinates \<open>(row, col)\<close>
  with \<open>0 \<le> row < ROWS\<close> and \<open>0 \<le> col < COLS\<close>, and every value is 0 or 1.
\<close>

theorem reachable_grid_invariant:
  assumes "reachable Number st"
  shows "distinct (map fst (currentCellState st)) \<and>
         fst ` set (currentCellState st) =
           {(row, col). 0 \<le> row \<and> row < ROWS \<and> 0 \<le> col \<and> col < COLS} \<and>
         snd ` set (currentCellState st) \<subseteq> {0, 1}"
proof -
  from assms have ok: "grid_ok st" by (rule reachable_grid_ok)
  then have keys: "map fst (currentCellState st) = grid_keys"
    and vals: "snd ` set (currentCellState st) \<subseteq> {0, 1}"
    by (simp_all add: grid_ok_def)
  have "fst ` set (currentCellState st) = set (map fst (currentCellState st))"
    by simp
  also have "\<dots> = {(row, col). 0 \<le> row \<and> row < ROWS \<and> 0 \<le> col \<and> col < COLS}"
    unfolding keys by (rule set_grid_keys)
  finally show ?thesis
    using vals by (simp add: keys distinct_grid_keys)
qed

theorem reachable_grid_invariant_witness:
  "distinct (map fst (currentCellState (clearUniverse (tick running_state)))) \<and>
   fst ` set (currentCellState (clearUniverse (tick running_state))) =
     {(row, col). 0 \<le> row \<and> row < ROWS \<and> 0 \<le> col \<and> col < COLS} \<and>
   snd ` set (currentCellState (clearUniverse (tick running_state))) \<subseteq> {0, 1}"
proof -
  have "reachable example_Number (tick running_state)"
    by (rule reachable.timer [OF reachable_running_state isProgressing_running_state])
  then have "reachable example_Number (clearUniverse (tick running_state))"
    by (rule reachable.cleared)
  then show ?thesis by (rule reachable_grid_invariant)
qed

text \<open>
  C10. \<^const>\<open>evolve\<close> takes no random number and no other input than the state, and the
  cell values it produces depend on the cell values alone: from two states of the page
  with equal objects of current values, whatever their other fields are, it produces
  equal objects.
\<close>

theorem evolve_deterministic:
  assumes "reachable Number s" and "reachable Number' t"
    and "currentCellState s = currentCellState t"
  shows "currentCellState (evolve s) = currentCellState (evolve t)"
proof -
  have cnt: "countNeighbors s = countNeighbors t"
    by (rule countNeighbors_cong [OF assms(3)])
  have "currentCellState (evolve s) =
      map (\<lambda>(k, v). (k, next_value v (countNeighbors s k))) (currentCellState s)"
    using reachable_grid_ok [OF assms(1)]
    by (intro evolve_current) (simp_all add: grid_ok_def distinct_grid_keys)
  moreover have "currentCellState (evolve t) =
      map (\<lambda>(k, v). (k, next_value v (countNeighbors t k))) (currentCellState t)"
    using reachable_grid_ok [OF assms(2)]
    by (intro evolve_current) (simp_all add: grid_ok_def distinct_grid_keys)
  ultimately show ?thesis
    by (simp add: cnt assms(3))
qed

theorem evolve_deterministic_witness:
  "currentCellState (evolve corner_state) = currentCellState (evolve running_state)"
proof -
  have "currentCellState corner_state = currentCellState running_state"
    by (simp add: running_state_def handleStateProgression_def Let_def)
  then show ?thesis
    by (rule evolve_deterministic [OF reachable_corner_state reachable_running_state])
qed

section \<open>Further properties\<close>

text \<open>
  X1. Away from the border, for \<open>1 \<le> row \<le> ROWS - 2\<close> and \<open>1 \<le> col \<le> ROWS - 2\<close>, no
  coordinate wraps, and \<^const>\<open>countNeighbors\<close> returns the count of the specification.
\<close>

theorem countNeighbors_interior:
  assumes "1 \<le> row" "row \<le> ROWS - 2" "1 \<le> col" "col \<le> ROWS - 2"
    and "map_of (currentCellState st) (row, col) = Some v"
  shows "countNeighbors st (row, col) =
           Some (spec_liveNeighborCount (currentCellState st) (row, col))"
proof -
  let ?obj = "currentCellState st"
  have r1: "(row + i + COLS) smod COLS = row + i" if "i \<in> set [-1, 0, 1]" for i
    by (rule smod_add_same) (use that assms(1,2) in \<open>auto simp: ROWS_def COLS_def\<close>)
  have r2: "((row + i) smod ROWS + ROWS) smod ROWS = row + i" if "i \<in> set [-1, 0, 1]" for i
    by (rule smod_wrap_twice) (use that assms(1,2) in \<open>auto simp: ROWS_def COLS_def\<close>)
  have c1: "(col + j + ROWS) smod ROWS = col + j" if "j \<in> set [-1, 0, 1]" for j
    by (rule smod_add_same) (use that assms(3,4) in \<open>auto simp: ROWS_def COLS_def\<close>)
  have c2: "((col + j) smod COLS + COLS) smod COLS = col + j" if "j \<in> set [-1, 0, 1]" for j
    by (rule smod_wrap_twice) (use that assms(3,4) in \<open>auto simp: ROWS_def COLS_def\<close>)
  have "(\<Sum>i \<leftarrow> [-1, 0, 1]. \<Sum>j \<leftarrow> [-1, 0, 1].
           live ?obj ((row + i + COLS) smod COLS, (col + j + ROWS) smod ROWS)) =
        (\<Sum>i \<leftarrow> [-1, 0, 1]. \<Sum>j \<leftarrow> [-1, 0, 1].
           live ?obj (((row + i) smod ROWS + ROWS) smod ROWS, ((col + j) smod COLS + COLS) smod COLS))"
    by (intro arg_cong [where f = sum_list] map_cong refl) (simp only: r1 r2 c1 c2)
  moreover have "live ?obj (row, col) = v"
    using assms(5) by (simp add: live_def)
  ultimately show ?thesis
    using assms(5) by (simp only: countNeighbors_sum spec_liveNeighborCount_def split option.case)
qed

theorem countNeighbors_interior_witness:
  "countNeighbors corner_state (1, 1) = Some 1 \<and>
   spec_liveNeighborCount (currentCellState corner_state) (1, 1) = 1"
proof -
  have v: "map_of (currentCellState corner_state) (1, 1) = Some 0"
    by (simp add: corner_lookup)
  have "countNeighbors corner_state (1, 1) = Some 1"
    by (simp add: countNeighbors_def upto_offsets hasOwnProperty_def corner_lookup
        ROWS_def COLS_def smod_int_alt_def Let_def)
  then show ?thesis
    using countNeighbors_interior [of 1 1 corner_state 0] v by (simp add: ROWS_def)
qed

text \<open>
  X2. For the same cells, on a grid of zeros and ones, the count \<^const>\<open>countNeighbors\<close>
  returns lies between 0 and 8.
\<close>

theorem countNeighbors_interior_bounds:
  assumes "1 \<le> row" "row \<le> ROWS - 2" "1 \<le> col" "col \<le> ROWS - 2"
    and "map_of (currentCellState st) (row, col) = Some v"
    and "snd ` set (currentCellState st) \<subseteq> {0, 1}"
  shows "\<exists>n. countNeighbors st (row, col) = Some n \<and> 0 \<le> n \<and> n \<le> 8"
proof -
  let ?obj = "currentCellState st"
  let ?l = "live ?obj"
  have r1: "(row + i + COLS) smod COLS = row + i" if "i \<in> set [-1, 0, 1]" for i
    by (rule smod_add_same) (use that assms(1,2) in \<open>auto simp: ROWS_def COLS_def\<close>)
  have c1: "(col + j + ROWS) smod ROWS = col + j" if "j \<in> set [-1, 0, 1]" for j
    by (rule smod_add_same) (use that assms(3,4) in \<open>auto simp: ROWS_def COLS_def\<close>)
  have "(\<Sum>i \<leftarrow> [-1, 0, 1]. \<Sum>j \<leftarrow> [-1, 0, 1].
           ?l ((row + i + COLS) smod COLS, (col + j + ROWS) smod ROWS)) =
        (\<Sum>i \<leftarrow> [-1, 0, 1]. \<Sum>j \<leftarrow> [-1, 0, 1]. ?l (row + i, col + j))"
    by (intro arg_cong [where f = sum_list] map_cong refl) (simp only: r1 c1)
  also have "\<dots> = ?l (row - 1, col - 1) + ?l (row - 1, col) + ?l (row - 1, col + 1) +
      ?l (row, col - 1) + ?l (row, col) + ?l (row, col + 1) +
      ?l (row + 1, col - 1) + ?l (row + 1, col) + ?l (row + 1, col + 1)"
    by simp
  finally have sum: "(\<Sum>i \<leftarrow> [-1, 0, 1]. \<Sum>j \<leftarrow> [-1, 0, 1].
           ?l ((row + i + COLS) smod COLS, (col + j + ROWS) smod ROWS)) =
      ?l (row - 1, col - 1) + ?l (row - 1, col) + ?l (row - 1, col + 1) +
      ?l (row, col - 1) + ?l (row, col) + ?l (row, col + 1) +
      ?l (row + 1, col - 1) + ?l (row + 1, col) + ?l (row + 1, col + 1)" .
  have self: "?l (row, col) = v"
    using assms(5) by (simp add: live_def)
  note b = live_binary [OF assms(6)]
  have "countNeighbors st (row, col) =
      Some (?l (row - 1, col - 1) + ?l (row - 1, col) + ?l (row - 1, col + 1) +
      ?l (row, col - 1) + ?l (row, col) + ?l (row, col + 1) +
      ?l (row + 1, col - 1) + ?l (row + 1, col) + ?l (row + 1, col + 1) - v)"
    using assms(5) by (simp only: countNeighbors_sum sum option.case)
  moreover have "0 \<le> ?l (row - 1, col - 1) + ?l (row - 1, col) + ?l (row - 1, col + 1) +
      ?l (row, col - 1) + ?l (row, col) + ?l (row, col + 1) +
      ?l (row + 1, col - 1) + ?l (row + 1, col) + ?l (row + 1, col + 1) - v"
    using self b [of "(row - 1, col - 1)"] b [of "(row - 1, col)"] b [of "(row - 1, col + 1)"]
      b [of "(row, col - 1)"] b [of "(row, col + 1)"]
      b [of "(row + 1, col - 1)"] b [of "(row + 1, col)"] b [of "(row + 1, col + 1)"]
    by linarith
  moreover have "?l (row - 1, col - 1) + ?l (row - 1, col) + ?l (row - 1, col + 1) +
      ?l (row, col - 1) + ?l (row, col) + ?l (row, col + 1) +
      ?l (row + 1, col - 1) + ?l (row + 1, col) + ?l (row + 1, col + 1) - v \<le> 8"
    using self b [of "(row - 1, col - 1)"] b [of "(row - 1, col)"] b [of "(row - 1, col + 1)"]
      b [of "(row, col - 1)"] b [of "(row, col + 1)"]
      b [of "(row + 1, col - 1)"] b [of "(row + 1, col)"] b [of "(row + 1, col + 1)"]
    by linarith
  ultimately show ?thesis by simp
qed

theorem countNeighbors_interior_bounds_witness:
  "\<exists>n. countNeighbors lone_state (5, 20) = Some n \<and> 0 \<le> n \<and> n \<le> 8"
proof -
  have v: "map_of (currentCellState lone_state) (5, 20) = Some 0"
    by (simp add: lone_lookup)
  have "grid_ok lone_state"
    unfolding lone_state_def by (rule grid_ok_loaded)
  then have b: "snd ` set (currentCellState lone_state) \<subseteq> {0, 1}"
    by (simp add: grid_ok_def)
  show ?thesis
    using countNeighbors_interior_bounds [of 5 20 lone_state 0] v b by (simp add: ROWS_def)
qed

text \<open>
  X3. With a finite chance \<open>p\<close> configured, \<^const>\<open>initializeUniverse\<close> makes a cell of
  the grid alive exactly when \<open>p\<close> is not 0 and the number drawn for the cell is below
  \<open>(p - 1) / 99\<close>.
\<close>

theorem initializeUniverse_birth_threshold:
  assumes "chanceToBeLivingCell st = Finite p"
    and "0 \<le> row" "row < ROWS" "0 \<le> col" "col < COLS"
  shows "map_of (currentCellState (initializeUniverse random st)) (row, col) =
           Some (if p \<noteq> 0 \<and> random (row, col) < (p - 1) / 99 then 1 else 0)"
proof -
  have "born random (Finite p) (row, col) \<longleftrightarrow> p \<noteq> 0 \<and> random (row, col) < (p - 1) / 99"
    by (auto simp: born_def field_simps)
  moreover have "(row, col) \<in> set grid_keys"
    using assms(2-5) by (simp add: set_grid_keys)
  ultimately show ?thesis
    by (simp add: initializeUniverse_lookup assms(1))
qed

theorem initializeUniverse_birth_threshold_witness:
  "map_of (currentCellState (initializeUniverse corner_random (initial_state (Finite 50) (Finite 100))))
     (0, 0) = Some 1"
  using initializeUniverse_birth_threshold
    [of "initial_state (Finite 50) (Finite 100)" 50 0 0 corner_random]
  by (simp add: initial_state_def ROWS_def COLS_def corner_random_def)

text \<open>
  X4. One tick of the timer adds one to the generation and shows the new generation.
\<close>

theorem tick_increments_generation:
  "generation (tick st) = generation st + 1 \<and>
   generationCountDisplay (tick st) = generation st + 1"
proof -
  have "generationCountDisplay (fold evolveCell es s) = generationCountDisplay s" for es s
    by (subst fold_evolveCell_frame) simp
  then show ?thesis
    by (simp add: tick_def evolve_def Let_def fold_evolveCell_generation)
qed

text \<open>
  X5. Each of the two key handlers stores \<^verbatim>\<open>Number(value)\<close> exactly when the value
  contains at least one digit, and leaves the state as it is otherwise.
\<close>

theorem onkeyup_accepts_iff_some_digit:
  "speedProgressionInput_onkeyup Number value st =
     (if list_ex is_digit value then st\<lparr>progressionSpeed := Number value\<rparr> else st) \<and>
   percentCellIsAliveInput_onkeyup Number value st =
     (if list_ex is_digit value then st\<lparr>chanceToBeLivingCell := Number value\<rparr> else st)"
  by (simp add: speedProgressionInput_onkeyup_def percentCellIsAliveInput_onkeyup_def
      digits_test_iff)

end
